theory Spec2Isabelle
  imports Complex_Main "HOL-Library.Word"
begin

section \<open>Double-precision values\<close>

text \<open>
  A C++ \<^verbatim>\<open>double\<close> is either a finite number, an infinity or a NaN. The special
  values follow IEEE 754, which never traps: dividing by zero gives an infinity or a NaN.
  A finite value is represented by the real number it stands for; rounding of finite results
  and overflow of finite results to an infinity are not represented, and the two zeros are
  not distinguished (a zero divisor counts as \<^verbatim>\<open>+0\<close>).
\<close>

datatype double = Fin real | PInf | MInf | NaN

fun isfinite :: "double \<Rightarrow> bool" where
  "isfinite (Fin x) = True"
| "isfinite _ = False"

fun dneg :: "double \<Rightarrow> double" where
  "dneg (Fin x) = Fin (- x)"
| "dneg PInf = MInf"
| "dneg MInf = PInf"
| "dneg NaN = NaN"

text \<open>\<^verbatim>\<open>a + b\<close>\<close>

fun dadd :: "double \<Rightarrow> double \<Rightarrow> double" where
  "dadd NaN b = NaN"
| "dadd a NaN = NaN"
| "dadd (Fin x) (Fin y) = Fin (x + y)"
| "dadd PInf MInf = NaN"
| "dadd MInf PInf = NaN"
| "dadd PInf b = PInf"
| "dadd MInf b = MInf"
| "dadd (Fin x) b = b"

text \<open>\<^verbatim>\<open>a - b\<close>\<close>

definition dsub :: "double \<Rightarrow> double \<Rightarrow> double" where
  "dsub a b = dadd a (dneg b)"

text \<open>The infinity with the sign of \<open>s\<close>.\<close>

definition dinf :: "real \<Rightarrow> double" where
  "dinf s = (if s < 0 then MInf else PInf)"

text \<open>\<^verbatim>\<open>a * b\<close>\<close>

fun dmul :: "double \<Rightarrow> double \<Rightarrow> double" where
  "dmul NaN b = NaN"
| "dmul a NaN = NaN"
| "dmul (Fin x) (Fin y) = Fin (x * y)"
| "dmul (Fin x) PInf = (if x = 0 then NaN else dinf x)"
| "dmul (Fin x) MInf = (if x = 0 then NaN else dinf (- x))"
| "dmul PInf (Fin y) = (if y = 0 then NaN else dinf y)"
| "dmul MInf (Fin y) = (if y = 0 then NaN else dinf (- y))"
| "dmul PInf PInf = PInf"
| "dmul PInf MInf = MInf"
| "dmul MInf PInf = MInf"
| "dmul MInf MInf = PInf"

text \<open>\<^verbatim>\<open>a / b\<close>: no exception is raised for a zero divisor.\<close>

fun ddiv :: "double \<Rightarrow> double \<Rightarrow> double" where
  "ddiv NaN b = NaN"
| "ddiv a NaN = NaN"
| "ddiv (Fin x) (Fin y) =
     (if y = 0 then (if x = 0 then NaN else dinf x) else Fin (x / y))"
| "ddiv (Fin x) b = Fin 0"
| "ddiv PInf (Fin y) = (if y < 0 then MInf else PInf)"
| "ddiv MInf (Fin y) = (if y < 0 then PInf else MInf)"
| "ddiv a b = NaN"

text \<open>\<^verbatim>\<open>std::pow(a, 2)\<close>\<close>

fun pow2 :: "double \<Rightarrow> double" where
  "pow2 (Fin x) = Fin (x * x)"
| "pow2 NaN = NaN"
| "pow2 _ = PInf"

text \<open>\<^verbatim>\<open>a < 0\<close>: false for a NaN.\<close>

fun negative :: "double \<Rightarrow> bool" where
  "negative (Fin x) = (x < 0)"
| "negative MInf = True"
| "negative _ = False"

text \<open>A non-negative real number: finite and not below zero.\<close>

fun nonneg_real :: "double \<Rightarrow> bool" where
  "nonneg_real (Fin x) = (0 \<le> x)"
| "nonneg_real _ = False"


section \<open>The photon+jet measurement (src/PhotonJet.cpp)\<close>

datatype Method = PtBal | MPF

record PtBin =
  ptPhoton :: double
  balanceRatio :: double
  unc2 :: double

record PhotonJet =
  bins :: "PtBin list"

text \<open>
  Of the nuisance vector, \<^verbatim>\<open>Eval\<close> reads the member \<^verbatim>\<open>photonScale\<close> only. The
  corrector is used through its \<^verbatim>\<open>const\<close> method \<^verbatim>\<open>Eval(pt)\<close>, a function from
  the transverse momentum to the correction factor.
\<close>

record Nuisances =
  photonScale :: double

type_synonym JetCorrBase = "double \<Rightarrow> double"

text \<open>
  A \<^verbatim>\<open>TGraphErrors\<close> as the constructor reads it: for each point, \<^verbatim>\<open>x\<close>,
  \<^verbatim>\<open>y\<close> (from \<^verbatim>\<open>GetPoint\<close>) and the error on \<^verbatim>\<open>y\<close> (from \<^verbatim>\<open>GetErrorY\<close>).
  A \<^verbatim>\<open>TFile\<close> maps object names to graphs; a file that cannot be opened is a zombie.
\<close>

type_synonym TGraphErrors = "(double \<times> double \<times> double) list"

datatype TFile = Zombie | Opened "string \<rightharpoonup> TGraphErrors"

datatype exn =
    Runtime_error string
  | Null_dereference

definition methodLabel :: "Method \<Rightarrow> string" where
  "methodLabel method = (case method of PtBal \<Rightarrow> ''PtBal'' | MPF \<Rightarrow> ''MPF'')"

text \<open>The loop of the constructor: one bin for each point of the graph.\<close>

fun load_bins :: "TGraphErrors \<Rightarrow> PtBin list" where
  "load_bins [] = []"
| "load_bins ((x, y, ey) # points) =
     \<lparr>ptPhoton = x, balanceRatio = y, unc2 = pow2 ey\<rparr> # load_bins points"

text \<open>
  \<^verbatim>\<open>PhotonJet::PhotonJet(fileName, method)\<close>. The file system is the parameter
  \<open>open_file\<close>. A zombie file raises \<^verbatim>\<open>std::runtime_error\<close>; a missing graph leaves a
  null pointer, which the constructor dereferences.
\<close>

definition PhotonJet_new :: "(string \<Rightarrow> TFile) \<Rightarrow> string \<Rightarrow> Method \<Rightarrow> exn + PhotonJet" where
  "PhotonJet_new open_file fileName method =
     (case open_file fileName of
        Zombie \<Rightarrow>
          Inl (Runtime_error (''Failed to open file '' @ [CHR 0x22] @ fileName @ [CHR 0x22] @ ''.''))
      | Opened inputFile \<Rightarrow>
          (case inputFile (''resp_'' @ methodLabel method @ ''chs_extrap_a30_eta00_13'') of
             None \<Rightarrow> Inl Null_dereference
           | Some extrapRatio \<Rightarrow> Inr \<lparr>bins = load_bins extrapRatio\<rparr>))"

text \<open>\<^verbatim>\<open>PhotonJet::GetDim\<close>: the size of \<^verbatim>\<open>bins\<close>, converted to \<^verbatim>\<open>unsigned\<close>.\<close>

definition PhotonJet_GetDim :: "PhotonJet \<Rightarrow> 32 word" where
  "PhotonJet_GetDim m = of_nat (length (bins m))"

text \<open>The body of the loop of \<^verbatim>\<open>PhotonJet::Eval\<close>: the term added to \<^verbatim>\<open>chi2\<close> for one bin.\<close>

definition bin_term :: "JetCorrBase \<Rightarrow> Nuisances \<Rightarrow> PtBin \<Rightarrow> double" where
  "bin_term corrector nuisances bin =
     (let balanceRatioCorr = ddiv (balanceRatio bin) (dadd (Fin 1) (photonScale nuisances));
          ptPhotonCorr = dmul (ptPhoton bin) (dadd (Fin 1) (photonScale nuisances))
      in ddiv (pow2 (dsub balanceRatioCorr (ddiv (Fin 1) (corrector ptPhotonCorr)))) (unc2 bin))"

fun Eval_loop :: "JetCorrBase \<Rightarrow> Nuisances \<Rightarrow> double \<Rightarrow> PtBin list \<Rightarrow> double" where
  "Eval_loop corrector nuisances chi2 [] = chi2"
| "Eval_loop corrector nuisances chi2 (bin # rest) =
     Eval_loop corrector nuisances (dadd chi2 (bin_term corrector nuisances bin)) rest"

text \<open>\<^verbatim>\<open>PhotonJet::Eval\<close>\<close>

definition PhotonJet_Eval :: "PhotonJet \<Rightarrow> JetCorrBase \<Rightarrow> Nuisances \<Rightarrow> double" where
  "PhotonJet_Eval m corrector nuisances = Eval_loop corrector nuisances (Fin 0) (bins m)"

text \<open>
  The same method with the object threaded through: each iteration takes the measurement
  and hands it on, as the C++ loop has \<^verbatim>\<open>this\<close> at hand throughout. The result is the
  returned value together with the measurement after the call.
\<close>

fun Eval_steps :: "JetCorrBase \<Rightarrow> Nuisances \<Rightarrow> PtBin list \<Rightarrow> double \<times> PhotonJet \<Rightarrow> double \<times> PhotonJet" where
  "Eval_steps corrector nuisances [] st = st"
| "Eval_steps corrector nuisances (bin # rest) (chi2, this) =
     Eval_steps corrector nuisances rest (dadd chi2 (bin_term corrector nuisances bin), this)"

definition PhotonJet_Eval_call :: "PhotonJet \<Rightarrow> JetCorrBase \<Rightarrow> Nuisances \<Rightarrow> double \<times> PhotonJet" where
  "PhotonJet_Eval_call this corrector nuisances = Eval_steps corrector nuisances (bins this) (Fin 0, this)"


section \<open>Three-point morphing (include/HistMorph.hpp)\<close>

text \<open>
  The header declares the class and documents its methods; the bodies of the methods
  belong to another source file of the library. The reference points are the three real
  values per bin of the specification.
\<close>

record HistMorph =
  central :: "real list"
  up :: "real list"
  down :: "real list"

text \<open>
  Modelled from the spec: the body of the constructor
  \<^verbatim>\<open>HistMorph(central, up, down)\<close>, which stores the three reference vectors.
\<close>

definition HistMorph3 :: "real list \<Rightarrow> real list \<Rightarrow> real list \<Rightarrow> HistMorph" where
  "HistMorph3 c u d = \<lparr>central = c, up = u, down = d\<rparr>"

text \<open>
  Modelled from the spec: the body of the constructor \<^verbatim>\<open>HistMorph(up, down)\<close>. Its
  documentation reads: central reference points are set to zero.
\<close>

definition HistMorph2 :: "real list \<Rightarrow> real list \<Rightarrow> HistMorph" where
  "HistMorph2 u d = \<lparr>central = replicate (length u) 0, up = u, down = d\<rparr>"

text \<open>
  Modelled from the spec: the body of \<^verbatim>\<open>HistMorph::SmoothStep\<close>, a monotonic smooth
  step with \<open>S(-1) = 0\<close>, \<open>S(0) = 1/2\<close> and \<open>S(1) = 1\<close>, constant outside \<open>[-1, 1]\<close>.
  The polynomial is one choice that meets the specification, which leaves the formula open.
\<close>

definition SmoothStep :: "real \<Rightarrow> real" where
  "SmoothStep x =
     (if x \<le> - 1 then 0
      else if 1 \<le> x then 1
      else (1 + x * (x * x * (3 * (x * x) - 10) + 15) / 8) / 2)"

text \<open>
  Modelled from the spec: the body of \<^verbatim>\<open>HistMorph::Eval(bin, x)\<close>. The value moves
  away from the central point with a slope that blends the slope towards the down point
  and the slope towards the up point, with \<open>SmoothStep x\<close> as the weight; outside
  \<open>[-1, 1]\<close> the weight is constant and the value is linear in \<open>x\<close>. The bin index is
  zero-based; an index outside one of the vectors has no defined result (\<open>None\<close>).
\<close>

definition HistMorph_Eval :: "HistMorph \<Rightarrow> 32 word \<Rightarrow> real \<Rightarrow> real option" where
  "HistMorph_Eval h bin x =
     (let i = unat bin in
      if i < length (central h) \<and> i < length (up h) \<and> i < length (down h)
      then (let c = central h ! i; w = SmoothStep x
            in Some (c + x * (w * (up h ! i - c) + (1 - w) * (c - down h ! i))))
      else None)"


section \<open>Reading a number: \<^verbatim>\<open>std::stod\<close>\<close>

text \<open>
  \<^verbatim>\<open>std::stod\<close> calls \<^verbatim>\<open>strtod\<close> in the "C" locale: it skips white space, reads an
  optional sign and then the longest text that is a decimal or hexadecimal floating-point
  number, an infinity or a NaN, and ignores what follows. It throws
  \<^verbatim>\<open>std::invalid_argument\<close> when no number is found and \<^verbatim>\<open>std::out_of_range\<close>
  when \<^verbatim>\<open>strtod\<close> reports a range error.
\<close>

datatype stod_error = Invalid_argument | Out_of_range

definition isspace :: "char \<Rightarrow> bool" where
  "isspace c \<longleftrightarrow> c \<in> set [CHR '' '', CHR 0x09, CHR 0x0A, CHR 0x0B, CHR 0x0C, CHR 0x0D]"

definition isdigit :: "char \<Rightarrow> bool" where
  "isdigit c \<longleftrightarrow> c \<in> set ''0123456789''"

definition isxdigit :: "char \<Rightarrow> bool" where
  "isxdigit c \<longleftrightarrow> c \<in> set ''0123456789abcdefABCDEF''"

definition tolower :: "char \<Rightarrow> char" where
  "tolower c =
     (case map_of (zip ''ABCDEFGHIJKLMNOPQRSTUVWXYZ'' ''abcdefghijklmnopqrstuvwxyz'') c of
        Some l \<Rightarrow> l
      | None \<Rightarrow> c)"

definition digit_val :: "char \<Rightarrow> nat" where
  "digit_val c =
     (case map_of (zip ''0123456789abcdef'' [0, 1, 2, 3, 4, 5, 6, 7, 8, 9, 10, 11, 12, 13, 14, 15]) (tolower c) of
        Some d \<Rightarrow> d
      | None \<Rightarrow> 0)"

definition digits_val :: "nat \<Rightarrow> string \<Rightarrow> nat" where
  "digits_val base ds = foldl (\<lambda>a c. base * a + digit_val c) 0 ds"

definition split_sign :: "string \<Rightarrow> bool \<times> string" where
  "split_sign s =
     (case s of
        [] \<Rightarrow> (False, [])
      | c # r \<Rightarrow> if c = CHR ''-'' then (True, r) else if c = CHR ''+'' then (False, r) else (False, s))"

text \<open>
  The exponent part: one of the marker letters, an optional sign and at least one decimal
  digit. Anything else is no exponent part, and the exponent is 0.
\<close>

definition exponent_of :: "string \<Rightarrow> string \<Rightarrow> int" where
  "exponent_of markers r =
     (case r of
        [] \<Rightarrow> 0
      | c # r1 \<Rightarrow>
          if c \<in> set markers
          then (let (neg, r2) = split_sign r1; ds = takeWhile isdigit r2
                in if ds = [] then 0
                   else if neg then - int (digits_val 10 ds) else int (digits_val 10 ds))
          else 0)"

definition scale :: "real \<Rightarrow> real \<Rightarrow> int \<Rightarrow> real" where
  "scale b m e = (if 0 \<le> e then m * b ^ nat e else m / b ^ nat (- e))"

text \<open>
  The digits of a number: digits before and after an optional point, at least one digit in
  all, then the exponent part. \<open>None\<close> when there is no digit.
\<close>

definition float_body ::
  "(char \<Rightarrow> bool) \<Rightarrow> nat \<Rightarrow> string \<Rightarrow> real \<Rightarrow> int \<Rightarrow> string \<Rightarrow> real option" where
  "float_body is_dig base markers ebase k s =
     (let ip = takeWhile is_dig s;
          r1 = dropWhile is_dig s;
          has_point = (r1 \<noteq> [] \<and> hd r1 = CHR ''.'');
          fp = (if has_point then takeWhile is_dig (tl r1) else []);
          r2 = (if has_point then dropWhile is_dig (tl r1) else r1)
      in if ip = [] \<and> fp = [] then None
         else Some (scale ebase (real (digits_val base (ip @ fp)))
                      (exponent_of markers r2 - k * int (length fp))))"

definition decimal_float :: "string \<Rightarrow> real option" where
  "decimal_float s = float_body isdigit 10 ''eE'' 10 1 s"

definition hex_float :: "string \<Rightarrow> real option" where
  "hex_float s =
     (case s of
        z # x # r \<Rightarrow>
          if z = CHR ''0'' \<and> (x = CHR ''x'' \<or> x = CHR ''X'')
          then float_body isxdigit 16 ''pP'' 2 4 r
          else None
      | _ \<Rightarrow> None)"

text \<open>
  The range error of \<^verbatim>\<open>strtod\<close>, for the magnitude \<open>v\<close> of the number read: the value
  rounds to an infinity, or it is not zero and lies below the smallest normal number (the
  C library of the build platform reports the underflow).
\<close>

definition erange :: "real \<Rightarrow> bool" where
  "erange v \<longleftrightarrow> 2 ^ 1024 - 2 ^ 970 \<le> v \<or> (0 < v \<and> v * 2 ^ 1022 < 1)"

definition stod :: "string \<Rightarrow> stod_error + double" where
  "stod str =
     (let (neg, s) = split_sign (dropWhile isspace str);
          word = map tolower (take 3 s)
      in if word = ''inf'' then Inr (if neg then MInf else PInf)
         else if word = ''nan'' then Inr NaN
         else (case (case hex_float s of Some v \<Rightarrow> Some v | None \<Rightarrow> decimal_float s) of
                 None \<Rightarrow> Inl Invalid_argument
               | Some v \<Rightarrow>
                   if erange v then Inl Out_of_range
                   else Inr (Fin (if neg then - v else v))))"


section \<open>The fit program (prog/fit.cpp)\<close>

subsection \<open>The constraint given on the command line\<close>

text \<open>\<^verbatim>\<open>s.find(c, pos)\<close>; \<open>None\<close> stands for \<^verbatim>\<open>string::npos\<close>.\<close>

definition find_from :: "string \<Rightarrow> char \<Rightarrow> nat \<Rightarrow> nat option" where
  "find_from s c pos =
     (let k = length (takeWhile (\<lambda>x. x \<noteq> c) (drop pos s))
      in if pos + k < length s then Some (pos + k) else None)"

text \<open>
  \<^verbatim>\<open>s.substr(pos, count)\<close> and \<^verbatim>\<open>s.substr(pos)\<close>. The second argument is a
  number of characters. Both are called with \<open>pos \<le> length s\<close> only, where they do not
  throw.
\<close>

definition substr :: "string \<Rightarrow> nat \<Rightarrow> nat \<Rightarrow> string" where
  "substr s pos count = take count (drop pos s)"

definition substr_from :: "string \<Rightarrow> nat \<Rightarrow> string" where
  "substr_from s pos = drop pos s"

text \<open>
  How the parsing can end without a constraint: with the message
  \<^verbatim>\<open>Failed to parse constraint\<close> and \<^verbatim>\<open>EXIT_FAILURE\<close>, or with the
  \<^verbatim>\<open>std::out_of_range\<close> of \<^verbatim>\<open>std::stod\<close>, which the \<^verbatim>\<open>catch\<close> clause for
  \<^verbatim>\<open>std::invalid_argument\<close> lets through.
\<close>

datatype parse_error = Parse_failure | Uncaught_out_of_range

definition try_stod :: "string \<Rightarrow> parse_error + double" where
  "try_stod s =
     (case stod s of
        Inl Invalid_argument \<Rightarrow> Inl Parse_failure
      | Inl Out_of_range \<Rightarrow> Inl Uncaught_out_of_range
      | Inr v \<Rightarrow> Inr v)"

text \<open>
  Lines 93 to 127 of \<^verbatim>\<open>main\<close>: the result is \<open>(ptRef, targetCorr, relUnc)\<close>. The three
  conversions run in the order of the source.
\<close>

definition parse_constraint :: "string \<Rightarrow> parse_error + (double \<times> double \<times> double)" where
  "parse_constraint optionText =
     (case find_from optionText CHR '','' 0 of
        None \<Rightarrow> Inl Parse_failure
      | Some commaPos1 \<Rightarrow>
          (case find_from optionText CHR '','' (commaPos1 + 1) of
             None \<Rightarrow>
               (case try_stod (substr optionText 0 commaPos1) of
                  Inl e \<Rightarrow> Inl e
                | Inr targetCorr \<Rightarrow>
                    (case try_stod (substr_from optionText (commaPos1 + 1)) of
                       Inl e \<Rightarrow> Inl e
                     | Inr relUnc \<Rightarrow> Inr (Fin 208, targetCorr, relUnc)))
           | Some commaPos2 \<Rightarrow>
               (case try_stod (substr optionText 0 commaPos1) of
                  Inl e \<Rightarrow> Inl e
                | Inr ptRef \<Rightarrow>
                    (case try_stod (substr optionText (commaPos1 + 1) commaPos2) of
                       Inl e \<Rightarrow> Inl e
                     | Inr targetCorr \<Rightarrow>
                         (case try_stod (substr_from optionText (commaPos2 + 1)) of
                            Inl e \<Rightarrow> Inl e
                          | Inr relUnc \<Rightarrow> Inr (ptRef, targetCorr, relUnc))))))"

subsection \<open>From the command line to the start of the fit\<close>

text \<open>
  The options after \<^verbatim>\<open>boost::program_options\<close> has read the command line:
  \<^verbatim>\<open>--balance\<close> and \<^verbatim>\<open>--output\<close> have default values, the others may be absent.
\<close>

record options =
  opt_help :: bool
  opt_balance :: string
  opt_multijet :: "string option"
  opt_constraint :: "string option"
  opt_output :: string

text \<open>
  The measurements of the list \<^verbatim>\<open>measurements\<close>: the multijet measurement with its
  input file, its method and the range set by \<^verbatim>\<open>SetPtLeadRange\<close>, and the constraint
  with \<open>ptRef\<close>, \<open>targetCorr\<close> and \<open>relUnc\<close>.
\<close>

datatype measurement =
    MultijetCrawlingBins string Method double double
  | JetCorrConstraint double double double

text \<open>What the program writes to \<^verbatim>\<open>cerr\<close> before it returns \<^verbatim>\<open>EXIT_FAILURE\<close>.\<close>

datatype message =
    Usage
  | Unknown_balance string
  | Failed_to_parse string
  | No_measurements

text \<open>
  How the part of \<^verbatim>\<open>main\<close> before the fit ends: it returns \<^verbatim>\<open>EXIT_FAILURE\<close> after
  a message, an exception leaves \<^verbatim>\<open>main\<close>, or the loss function is built from the
  measurements and the fit starts.
\<close>

datatype outcome =
    EXIT_FAILURE message
  | Uncaught_exception
  | Fit_started "measurement list"

text \<open>\<^verbatim>\<open>boost::to_lower\<close>\<close>

definition to_lower :: "string \<Rightarrow> string" where
  "to_lower s = map tolower s"

text \<open>
  Lines 52 to 138 of \<^verbatim>\<open>main\<close>. The constructor of \<^verbatim>\<open>MultijetCrawlingBins\<close>
  belongs to the library: the parameter \<open>multijet_loads\<close> tells for which input files it
  returns, and for the others it throws.
\<close>

definition main :: "(string \<Rightarrow> bool) \<Rightarrow> options \<Rightarrow> outcome" where
  "main multijet_loads optionsMap =
     (if opt_help optionsMap then EXIT_FAILURE Usage
      else
        let balanceVar = to_lower (opt_balance optionsMap) in
        if balanceVar \<noteq> ''mpf'' \<and> balanceVar \<noteq> ''ptbal''
        then EXIT_FAILURE (Unknown_balance (opt_balance optionsMap))
        else
          let useMPF = (balanceVar = ''mpf'') in
          (case (case opt_multijet optionsMap of
                   None \<Rightarrow> Some []
                 | Some file \<Rightarrow>
                     if multijet_loads file
                     then Some [MultijetCrawlingBins file (if useMPF then MPF else PtBal)
                                  (Fin 0) (Fin 1600)]
                     else None) of
             None \<Rightarrow> Uncaught_exception
           | Some measurements1 \<Rightarrow>
               (case (case opt_constraint optionsMap of
                        None \<Rightarrow> Inr measurements1
                      | Some optionText \<Rightarrow>
                          (case parse_constraint optionText of
                             Inl Parse_failure \<Rightarrow> Inl (EXIT_FAILURE (Failed_to_parse optionText))
                           | Inl Uncaught_out_of_range \<Rightarrow> Inl Uncaught_exception
                           | Inr (ptRef, targetCorr, relUnc) \<Rightarrow>
                               Inr (measurements1 @ [JetCorrConstraint ptRef targetCorr relUnc]))) of
                  Inl stop \<Rightarrow> stop
                | Inr measurements \<Rightarrow>
                    if measurements = [] then EXIT_FAILURE No_measurements
                    else Fit_started measurements)))"

subsection \<open>The variables of the minimizer\<close>

text \<open>
  A variable of the minimizer as \<^verbatim>\<open>SetVariable\<close> and \<^verbatim>\<open>SetVariableLimits\<close> set it.
  The minimizer maps the index of a variable, which is its position in the vector handed to
  the objective function, to the variable.
\<close>

record variable =
  name :: string
  initial :: double
  step :: double
  limits :: "(double \<times> double) option"

type_synonym Minuit2Minimizer = "nat \<rightharpoonup> variable"

definition SetVariable ::
  "Minuit2Minimizer \<Rightarrow> nat \<Rightarrow> string \<Rightarrow> double \<Rightarrow> double \<Rightarrow> Minuit2Minimizer" where
  "SetVariable minimizer i nm val stp =
     minimizer(i \<mapsto> \<lparr>name = nm, initial = val, step = stp, limits = None\<rparr>)"

definition SetVariableLimits ::
  "Minuit2Minimizer \<Rightarrow> nat \<Rightarrow> double \<Rightarrow> double \<Rightarrow> Minuit2Minimizer" where
  "SetVariableLimits minimizer i lower upper =
     (case minimizer i of
        None \<Rightarrow> minimizer
      | Some v \<Rightarrow> minimizer(i \<mapsto> v\<lparr>limits := Some (lower, upper)\<rparr>))"

text \<open>The registry of nuisance parameters: the names, in the order of their indices.\<close>

record NuisanceDefinitions =
  names :: "string list"

text \<open>
  Modelled from the spec: the body of \<^verbatim>\<open>NuisanceDefinitions::GetNumParams\<close>, the size
  of the registry, as an \<^verbatim>\<open>unsigned\<close>.
\<close>

definition GetNumParams :: "NuisanceDefinitions \<Rightarrow> 32 word" where
  "GetNumParams defs = of_nat (length (names defs))"

text \<open>
  Modelled from the spec: the body of \<^verbatim>\<open>NuisanceDefinitions::GetName\<close>, the name at an
  index of the registry; an index outside the registry has no name.
\<close>

definition GetName :: "NuisanceDefinitions \<Rightarrow> nat \<Rightarrow> string option" where
  "GetName defs i = (if i < length (names defs) then Some (names defs ! i) else None)"

text \<open>\<^verbatim>\<open>std::to_string\<close> of an \<^verbatim>\<open>unsigned\<close>\<close>

fun to_string :: "nat \<Rightarrow> string" where
  "to_string n =
     (if n < 10 then [''0123456789'' ! n]
      else to_string (n div 10) @ [''0123456789'' ! (n mod 10)])"

text \<open>The first loop, over \<open>0 \<le> i < nPOI\<close>.\<close>

fun poi_loop :: "nat list \<Rightarrow> Minuit2Minimizer \<Rightarrow> Minuit2Minimizer" where
  "poi_loop [] minimizer = minimizer"
| "poi_loop (i # rest) minimizer =
     poi_loop rest
       (SetVariableLimits (SetVariable minimizer i (''p'' @ to_string i) (Fin 0) (Fin (1 / 100)))
          i (Fin (- 1)) (Fin 1))"

text \<open>
  The second loop, over \<open>nPOI \<le> i < nPars\<close>. \<open>None\<close> when \<^verbatim>\<open>GetName\<close> is asked for
  an index outside the registry.
\<close>

fun nuisance_loop ::
  "NuisanceDefinitions \<Rightarrow> nat \<Rightarrow> nat list \<Rightarrow> Minuit2Minimizer \<Rightarrow> Minuit2Minimizer option" where
  "nuisance_loop nuisanceDefs nPOI [] minimizer = Some minimizer"
| "nuisance_loop nuisanceDefs nPOI (i # rest) minimizer =
     (case GetName nuisanceDefs (i - nPOI) of
        None \<Rightarrow> None
      | Some nm \<Rightarrow>
          nuisance_loop nuisanceDefs nPOI rest
            (SetVariableLimits (SetVariable minimizer i nm (Fin 0) (Fin 1)) i (Fin (- 5)) (Fin 5)))"

text \<open>\<^verbatim>\<open>nPOI = nPars - nuisanceDefs.GetNumParams()\<close>, in \<^verbatim>\<open>unsigned\<close> arithmetic.\<close>

definition nPOI_of :: "NuisanceDefinitions \<Rightarrow> 32 word \<Rightarrow> 32 word" where
  "nPOI_of nuisanceDefs nPars = nPars - GetNumParams nuisanceDefs"

text \<open>Lines 160 to 173 of \<^verbatim>\<open>main\<close>, from a minimizer without variables.\<close>

definition initial_point :: "NuisanceDefinitions \<Rightarrow> 32 word \<Rightarrow> Minuit2Minimizer option" where
  "initial_point nuisanceDefs nPars =
     (let nPOI = unat (nPOI_of nuisanceDefs nPars)
      in nuisance_loop nuisanceDefs nPOI [nPOI ..< unat nPars]
           (poi_loop [0 ..< nPOI] Map.empty))"


section \<open>The constraint specification in the words of the specification\<close>

text \<open>
  The specification describes the constraint as \<^verbatim>\<open>[ptRef,]targetCorr,relUnc\<close>: two or
  three numbers separated by commas. A number is taken here as a decimal numeral: an
  optional sign, digits, and optionally a point followed by digits.
\<close>

fun fields :: "string \<Rightarrow> string list" where
  "fields [] = [[]]"
| "fields (c # s) =
     (if c = CHR '','' then [] # fields s
      else (case fields s of [] \<Rightarrow> [[c]] | f # fs \<Rightarrow> (c # f) # fs))"

definition is_number :: "string \<Rightarrow> bool" where
  "is_number f \<longleftrightarrow>
     (let u = snd (split_sign f); r = dropWhile isdigit u
      in takeWhile isdigit u \<noteq> [] \<and>
         (r = [] \<or> (hd r = CHR ''.'' \<and> tl r \<noteq> [] \<and> list_all isdigit (tl r))))"

definition number_value :: "string \<Rightarrow> real" where
  "number_value f =
     (let (neg, u) = split_sign f;
          ip = takeWhile isdigit u;
          fp = tl (dropWhile isdigit u);
          v = real (digits_val 10 (ip @ fp)) / 10 ^ length fp
      in if neg then - v else v)"

text \<open>A number that a \<^verbatim>\<open>double\<close> can hold: no range error.\<close>

definition representable :: "string \<Rightarrow> bool" where
  "representable f \<longleftrightarrow> \<not> erange \<bar>number_value f\<bar>"

definition wellformed_constraint :: "string \<Rightarrow> bool" where
  "wellformed_constraint s \<longleftrightarrow>
     (length (fields s) = 2 \<or> length (fields s) = 3) \<and> list_all is_number (fields s)"

text \<open>The constraint that a well-formed specification describes.\<close>

definition described_constraint :: "string \<Rightarrow> double \<times> double \<times> double" where
  "described_constraint s =
     (case fields s of
        [t, u] \<Rightarrow> (Fin 208, Fin (number_value t), Fin (number_value u))
      | [p, t, u] \<Rightarrow> (Fin (number_value p), Fin (number_value t), Fin (number_value u))
      | _ \<Rightarrow> (NaN, NaN, NaN))"


section \<open>Properties of the photon+jet measurement\<close>

subsection \<open>Values that are not finite\<close>

lemma dadd_nonfinite_left: "\<not> isfinite a \<Longrightarrow> \<not> isfinite (dadd a b)"
  by (cases a; cases b) simp_all

lemma dadd_nonfinite_right: "\<not> isfinite b \<Longrightarrow> \<not> isfinite (dadd a b)"
  by (cases a; cases b) simp_all

lemma dsub_nonfinite_right: "\<not> isfinite b \<Longrightarrow> \<not> isfinite (dsub a b)"
  by (cases a; cases b) (simp_all add: dsub_def)

lemma ddiv_nonfinite_left: "\<not> isfinite a \<Longrightarrow> \<not> isfinite (ddiv a b)"
  by (cases a; cases b) (simp_all add: dinf_def)

lemma ddiv_zero_nonfinite: "\<not> isfinite (ddiv a (Fin 0))"
  by (cases a) (simp_all add: dinf_def)

lemma pow2_nonfinite: "\<not> isfinite a \<Longrightarrow> \<not> isfinite (pow2 a)"
  by (cases a) simp_all

lemma Eval_loop_nonfinite:
  "\<not> isfinite chi2 \<Longrightarrow> \<not> isfinite (Eval_loop corrector nuisances chi2 bs)"
  by (induction bs arbitrary: chi2) (simp_all add: dadd_nonfinite_left)

lemma bin_term_zero_correction:
  assumes zero: "corrector (dmul (ptPhoton bin) (dadd (Fin 1) (photonScale nuisances))) = Fin 0"
  shows "\<not> isfinite (bin_term corrector nuisances bin)"
proof -
  have inv: "\<not> isfinite
      (ddiv (Fin 1) (corrector (dmul (ptPhoton bin) (dadd (Fin 1) (photonScale nuisances)))))"
    by (simp add: zero dinf_def)
  show ?thesis
    unfolding bin_term_def Let_def
    by (rule ddiv_nonfinite_left, rule pow2_nonfinite, rule dsub_nonfinite_right, rule inv)
qed

lemma bin_term_zero_unc2:
  "unc2 bin = Fin 0 \<Longrightarrow> \<not> isfinite (bin_term corrector nuisances bin)"
  unfolding bin_term_def Let_def by (simp add: ddiv_zero_nonfinite)

lemma Eval_loop_nonfinite_term:
  "bin \<in> set bs \<Longrightarrow> \<not> isfinite (bin_term corrector nuisances bin)
    \<Longrightarrow> \<not> isfinite (Eval_loop corrector nuisances chi2 bs)"
proof (induction bs arbitrary: chi2)
  case Nil
  then show ?case by simp
next
  case (Cons b bs)
  show ?case
  proof (cases "bin = b")
    case True
    with Cons.prems show ?thesis
      by (simp add: Eval_loop_nonfinite dadd_nonfinite_right)
  next
    case False
    with Cons show ?thesis by simp
  qed
qed

text \<open>
  C1, as the claim states it, fails: with one bin of photon pt 100, balance ratio 1 and
  \<open>unc2 = 1\<close>, a corrector that returns 0 and \<open>photonScale = 0\<close>, the code computes
  \<open>1 / 0\<close>, and \<^verbatim>\<open>Eval\<close> returns plus infinity, not a large finite number.
\<close>

theorem PhotonJet_Eval_zero_correction_infinite:
  "isfinite (photonScale \<lparr>photonScale = Fin 0\<rparr>) \<and>
   PhotonJet_Eval \<lparr>bins = [\<lparr>ptPhoton = Fin 100, balanceRatio = Fin 1, unc2 = Fin 1\<rparr>]\<rparr>
     (\<lambda>pt. Fin 0) \<lparr>photonScale = Fin 0\<rparr> = PInf \<and>
   \<not> isfinite PInf"
  by (simp add: PhotonJet_Eval_def bin_term_def dsub_def dinf_def)

text \<open>
  C1, amended: \<^verbatim>\<open>PhotonJet::Eval\<close> raises nothing and returns a value for every
  corrector and nuisance vector, but it does not saturate: whenever some bin has a
  correction factor equal to zero at its (rescaled) photon pt, or \<open>unc2\<close> equal to zero,
  the value returned is an infinity or a NaN.
\<close>

theorem PhotonJet_Eval_no_saturation:
  assumes "bin \<in> set (bins m)"
    and "corrector (dmul (ptPhoton bin) (dadd (Fin 1) (photonScale nuisances))) = Fin 0
         \<or> unc2 bin = Fin 0"
  shows "\<not> isfinite (PhotonJet_Eval m corrector nuisances)"
proof -
  have "\<not> isfinite (bin_term corrector nuisances bin)"
    using assms(2) bin_term_zero_correction bin_term_zero_unc2 by blast
  with assms(1) show ?thesis
    unfolding PhotonJet_Eval_def by (rule Eval_loop_nonfinite_term)
qed

text \<open>The theorem at a measurement with two bins, the second with \<open>unc2 = 0\<close>.\<close>

theorem PhotonJet_Eval_no_saturation_witness:
  "\<lparr>ptPhoton = Fin 40, balanceRatio = Fin 1, unc2 = Fin 0\<rparr>
     \<in> set (bins \<lparr>bins = [\<lparr>ptPhoton = Fin 30, balanceRatio = Fin 1, unc2 = Fin 4\<rparr>,
                          \<lparr>ptPhoton = Fin 40, balanceRatio = Fin 1, unc2 = Fin 0\<rparr>]\<rparr>) \<and>
   unc2 \<lparr>ptPhoton = Fin 40, balanceRatio = Fin 1, unc2 = Fin 0\<rparr> = Fin 0 \<and>
   \<not> isfinite
       (PhotonJet_Eval \<lparr>bins = [\<lparr>ptPhoton = Fin 30, balanceRatio = Fin 1, unc2 = Fin 4\<rparr>,
                                \<lparr>ptPhoton = Fin 40, balanceRatio = Fin 1, unc2 = Fin 0\<rparr>]\<rparr>
          (\<lambda>pt. Fin 2) \<lparr>photonScale = Fin 0\<rparr>)"
  using PhotonJet_Eval_no_saturation
    [of "\<lparr>ptPhoton = Fin 40, balanceRatio = Fin 1, unc2 = Fin 0\<rparr>"
        "\<lparr>bins = [\<lparr>ptPhoton = Fin 30, balanceRatio = Fin 1, unc2 = Fin 4\<rparr>,
                  \<lparr>ptPhoton = Fin 40, balanceRatio = Fin 1, unc2 = Fin 0\<rparr>]\<rparr>"
        "\<lambda>pt. Fin 2" "\<lparr>photonScale = Fin 0\<rparr>"]
  by simp

subsection \<open>An empty measurement\<close>

text \<open>
  C5: a measurement without bins has dimension 0, and its \<^verbatim>\<open>Eval\<close> returns 0 for every
  corrector and nuisance vector: the loop body, which holds the divisions, is not entered.
\<close>

theorem PhotonJet_empty:
  "bins m = [] \<Longrightarrow> PhotonJet_GetDim m = 0 \<and> PhotonJet_Eval m corrector nuisances = Fin 0"
  by (simp add: PhotonJet_GetDim_def PhotonJet_Eval_def)

text \<open>The theorem at the measurement without bins.\<close>

theorem PhotonJet_empty_witness:
  "bins \<lparr>bins = []\<rparr> = [] \<and> PhotonJet_GetDim \<lparr>bins = []\<rparr> = 0 \<and>
   PhotonJet_Eval \<lparr>bins = []\<rparr> (\<lambda>pt. Fin 0) \<lparr>photonScale = Fin (- 1)\<rparr> = Fin 0"
  using PhotonJet_empty [of "\<lparr>bins = []\<rparr>" "\<lambda>pt. Fin 0" "\<lparr>photonScale = Fin (- 1)\<rparr>"]
  by simp

subsection \<open>The sign of the result\<close>

lemma pow2_not_negative: "\<not> negative (pow2 a)"
  by (cases a) simp_all

lemma ddiv_not_negative: "\<not> negative a \<Longrightarrow> \<not> negative b \<Longrightarrow> \<not> negative (ddiv a b)"
  by (cases a; cases b) (auto simp: dinf_def not_less intro: divide_nonneg_nonneg)

lemma dadd_not_negative: "\<not> negative a \<Longrightarrow> \<not> negative b \<Longrightarrow> \<not> negative (dadd a b)"
  by (cases a; cases b) auto

lemma load_bins_unc2: "bin \<in> set (load_bins points) \<Longrightarrow> \<not> negative (unc2 bin)"
  by (induction points rule: load_bins.induct) (auto simp: pow2_not_negative)

lemma bin_term_not_negative:
  "\<not> negative (unc2 bin) \<Longrightarrow> \<not> negative (bin_term corrector nuisances bin)"
  unfolding bin_term_def Let_def by (rule ddiv_not_negative) (simp_all add: pow2_not_negative)

lemma Eval_loop_not_negative:
  "\<not> negative chi2 \<Longrightarrow> \<forall>bin \<in> set bs. \<not> negative (unc2 bin)
    \<Longrightarrow> \<not> negative (Eval_loop corrector nuisances chi2 bs)"
  by (induction bs arbitrary: chi2) (simp_all add: dadd_not_negative bin_term_not_negative)

lemma not_negative_cases: "\<not> negative r \<Longrightarrow> nonneg_real r \<or> r = PInf \<or> r = NaN"
  by (cases r) auto

text \<open>
  C7, as the claim states it, fails: a graph point with balance ratio 1 and a zero error
  gives a bin with \<open>unc2 = 0\<close>; with a corrector that returns 1 and \<open>photonScale = 0\<close> the
  term is \<open>0 / 0\<close>, and \<^verbatim>\<open>Eval\<close> returns a NaN, which is not a non-negative real number.
\<close>

theorem PhotonJet_Eval_zero_error_nan:
  "PhotonJet_new
     (\<lambda>f. Opened [''resp_PtBalchs_extrap_a30_eta00_13'' \<mapsto> [(Fin 100, Fin 1, Fin 0)]])
     ''photonjet.root'' PtBal
     = Inr \<lparr>bins = [\<lparr>ptPhoton = Fin 100, balanceRatio = Fin 1, unc2 = Fin 0\<rparr>]\<rparr> \<and>
   PhotonJet_Eval \<lparr>bins = [\<lparr>ptPhoton = Fin 100, balanceRatio = Fin 1, unc2 = Fin 0\<rparr>]\<rparr>
     (\<lambda>pt. Fin 1) \<lparr>photonScale = Fin 0\<rparr> = NaN \<and>
   \<not> nonneg_real NaN"
  by (simp add: PhotonJet_new_def methodLabel_def PhotonJet_Eval_def bin_term_def dsub_def)

text \<open>
  C7, amended: for a measurement that the constructor has loaded, and for every corrector
  and nuisance vector, \<^verbatim>\<open>Eval\<close> never returns a negative value: the result is a
  non-negative real number, plus infinity or a NaN.
\<close>

theorem PhotonJet_Eval_never_negative:
  assumes "PhotonJet_new open_file fileName method = Inr m"
  shows "nonneg_real (PhotonJet_Eval m corrector nuisances)
         \<or> PhotonJet_Eval m corrector nuisances = PInf
         \<or> PhotonJet_Eval m corrector nuisances = NaN"
proof -
  from assms obtain points where "bins m = load_bins points"
    by (auto simp: PhotonJet_new_def split: TFile.splits option.splits)
  then have "\<forall>bin \<in> set (bins m). \<not> negative (unc2 bin)"
    by (simp add: load_bins_unc2)
  then have "\<not> negative (PhotonJet_Eval m corrector nuisances)"
    unfolding PhotonJet_Eval_def by (intro Eval_loop_not_negative) simp_all
  then show ?thesis by (rule not_negative_cases)
qed

text \<open>The theorem at a measurement loaded from a graph with one point.\<close>

theorem PhotonJet_Eval_never_negative_witness:
  "PhotonJet_new
     (\<lambda>f. Opened [''resp_MPFchs_extrap_a30_eta00_13'' \<mapsto> [(Fin 50, Fin 0.9, Fin 0.1)]])
     ''photonjet.root'' MPF
     = Inr \<lparr>bins = [\<lparr>ptPhoton = Fin 50, balanceRatio = Fin 0.9, unc2 = Fin 0.01\<rparr>]\<rparr> \<and>
   nonneg_real
     (PhotonJet_Eval \<lparr>bins = [\<lparr>ptPhoton = Fin 50, balanceRatio = Fin 0.9, unc2 = Fin 0.01\<rparr>]\<rparr>
        (\<lambda>pt. Fin 1) \<lparr>photonScale = Fin 0\<rparr>)"
proof -
  have loaded: "PhotonJet_new
     (\<lambda>f. Opened [''resp_MPFchs_extrap_a30_eta00_13'' \<mapsto> [(Fin 50, Fin 0.9, Fin 0.1)]])
     ''photonjet.root'' MPF
     = Inr \<lparr>bins = [\<lparr>ptPhoton = Fin 50, balanceRatio = Fin 0.9, unc2 = Fin 0.01\<rparr>]\<rparr>"
    by (simp add: PhotonJet_new_def methodLabel_def)
  have finite: "PhotonJet_Eval
      \<lparr>bins = [\<lparr>ptPhoton = Fin 50, balanceRatio = Fin 0.9, unc2 = Fin 0.01\<rparr>]\<rparr>
      (\<lambda>pt. Fin 1) \<lparr>photonScale = Fin 0\<rparr> = Fin 1"
    by (simp add: PhotonJet_Eval_def bin_term_def dsub_def)
  show ?thesis
    using loaded finite
      PhotonJet_Eval_never_negative [OF loaded, of "\<lambda>pt. Fin 1" "\<lparr>photonScale = Fin 0\<rparr>"]
    by simp
qed

subsection \<open>No effect on the measurement\<close>

lemma Eval_steps_eq:
  "Eval_steps corrector nuisances bs (chi2, this) = (Eval_loop corrector nuisances chi2 bs, this)"
  by (induction bs arbitrary: chi2) simp_all

text \<open>
  C8: a call of \<^verbatim>\<open>PhotonJet::Eval\<close> leaves the measurement as it was, and its result is
  the function \<open>PhotonJet_Eval\<close> of the measurement, the corrector and the nuisance
  vector: a second call with the same arguments, on the measurement as the first call
  left it, returns the same value.
\<close>

theorem PhotonJet_Eval_pure:
  "PhotonJet_Eval_call this corrector nuisances = (PhotonJet_Eval this corrector nuisances, this) \<and>
   PhotonJet_Eval_call (snd (PhotonJet_Eval_call this corrector nuisances)) corrector nuisances
     = PhotonJet_Eval_call this corrector nuisances"
  by (simp add: PhotonJet_Eval_call_def PhotonJet_Eval_def Eval_steps_eq)


section \<open>Properties of the three-point morphing\<close>

text \<open>
  C4: when the three reference vectors have equal length and the bin index is valid,
  \<^verbatim>\<open>Eval(bin, 0)\<close>, \<^verbatim>\<open>Eval(bin, +1)\<close> and \<^verbatim>\<open>Eval(bin, -1)\<close> are exactly the
  central, up and down reference values of the bin.
\<close>

theorem HistMorph_Eval_reference_points:
  assumes "length (central h) = length (up h)" and "length (up h) = length (down h)"
    and "unat bin < length (central h)"
  shows "HistMorph_Eval h bin 0 = Some (central h ! unat bin) \<and>
         HistMorph_Eval h bin 1 = Some (up h ! unat bin) \<and>
         HistMorph_Eval h bin (- 1) = Some (down h ! unat bin)"
  using assms by (simp add: HistMorph_Eval_def SmoothStep_def Let_def)

text \<open>The theorem at the second bin of a morph with two bins.\<close>

theorem HistMorph_Eval_reference_points_witness:
  "length (central (HistMorph3 [1, 2] [3, 5] [0, 1])) = length (up (HistMorph3 [1, 2] [3, 5] [0, 1])) \<and>
   length (up (HistMorph3 [1, 2] [3, 5] [0, 1])) = length (down (HistMorph3 [1, 2] [3, 5] [0, 1])) \<and>
   unat (1 :: 32 word) < length (central (HistMorph3 [1, 2] [3, 5] [0, 1])) \<and>
   HistMorph_Eval (HistMorph3 [1, 2] [3, 5] [0, 1]) 1 0 = Some 2 \<and>
   HistMorph_Eval (HistMorph3 [1, 2] [3, 5] [0, 1]) 1 1 = Some 5 \<and>
   HistMorph_Eval (HistMorph3 [1, 2] [3, 5] [0, 1]) 1 (- 1) = Some 1"
  using HistMorph_Eval_reference_points [of "HistMorph3 [1, 2] [3, 5] [0, 1]" 1]
  by (simp add: HistMorph3_def)

text \<open>
  C10: a morph constructed from up and down reference vectors only has all its central
  reference values equal to zero, and \<^verbatim>\<open>Eval(bin, 0)\<close> returns 0 for every valid bin
  index.
\<close>

theorem HistMorph2_central_zero:
  "(\<forall>c \<in> set (central (HistMorph2 u d)). c = 0) \<and>
   (unat bin < length u \<and> unat bin < length d \<longrightarrow> HistMorph_Eval (HistMorph2 u d) bin 0 = Some 0)"
  by (simp add: HistMorph2_def HistMorph_Eval_def Let_def)

text \<open>The theorem at the second bin of a morph built from up and down vectors.\<close>

theorem HistMorph2_central_zero_witness:
  "central (HistMorph2 [3, 5] [- 2, 1]) = [0, 0] \<and>
   unat (1 :: 32 word) < length [3, 5 :: real] \<and> unat (1 :: 32 word) < length [- 2, 1 :: real] \<and>
   HistMorph_Eval (HistMorph2 [3, 5] [- 2, 1]) 1 0 = Some 0"
  using HistMorph2_central_zero [of "[3, 5]" "[- 2, 1]" 1]
  by (simp add: HistMorph2_def)



section \<open>Properties of the number reader\<close>

lemma isdigit_iff:
  "isdigit c \<longleftrightarrow>
     c = CHR ''0'' \<or> c = CHR ''1'' \<or> c = CHR ''2'' \<or> c = CHR ''3'' \<or> c = CHR ''4'' \<or>
     c = CHR ''5'' \<or> c = CHR ''6'' \<or> c = CHR ''7'' \<or> c = CHR ''8'' \<or> c = CHR ''9''"
  by (simp add: isdigit_def)

text \<open>A digit is none of the characters that have a meaning of their own in a number.\<close>

lemma isdigit_plain:
  "isdigit c \<Longrightarrow> c \<noteq> CHR '','' \<and> c \<noteq> CHR ''.'' \<and> c \<noteq> CHR ''-'' \<and> c \<noteq> CHR ''+''
     \<and> c \<noteq> CHR ''x'' \<and> c \<noteq> CHR ''X'' \<and> \<not> isspace c
     \<and> tolower c \<noteq> CHR ''i'' \<and> tolower c \<noteq> CHR ''n''"
  unfolding isdigit_iff by (elim disjE; simp add: isspace_def tolower_def)

lemma comma_not_digit [simp]: "\<not> isdigit CHR '',''"
  by (simp add: isdigit_def)

lemma point_not_digit [simp]: "\<not> isdigit CHR ''.''"
  by (simp add: isdigit_def)

lemma takeWhile_digits_rest:
  "list_all isdigit ds \<Longrightarrow> rest = [] \<or> \<not> isdigit (hd rest) \<Longrightarrow> takeWhile isdigit (ds @ rest) = ds"
  by (cases rest) (auto simp: list_all_iff)

lemma dropWhile_digits_rest:
  "list_all isdigit ds \<Longrightarrow> rest = [] \<or> \<not> isdigit (hd rest) \<Longrightarrow> dropWhile isdigit (ds @ rest) = rest"
  by (cases rest) (auto simp: list_all_iff)

lemma exponent_of_rest: "rest = [] \<or> hd rest = CHR '','' \<Longrightarrow> exponent_of ''eE'' rest = 0"
  by (cases rest) (auto simp: exponent_of_def)

lemma decimal_float_integer:
  assumes "list_all isdigit ip" and "ip \<noteq> []" and "rest = [] \<or> hd rest = CHR '',''"
  shows "decimal_float (ip @ rest) = Some (real (digits_val 10 ip))"
proof -
  have nd: "rest = [] \<or> \<not> isdigit (hd rest)" using assms(3) by auto
  have np: "(rest \<noteq> [] \<and> hd rest = CHR ''.'') = False" using assms(3) by auto
  show ?thesis
    unfolding decimal_float_def float_body_def Let_def
      takeWhile_digits_rest [OF assms(1) nd] dropWhile_digits_rest [OF assms(1) nd] np
    using assms(2) by (simp add: exponent_of_rest [OF assms(3)] scale_def)
qed

lemma decimal_float_fraction:
  assumes "list_all isdigit ip" and "list_all isdigit fp" and "fp \<noteq> []"
    and "rest = [] \<or> hd rest = CHR '',''"
  shows "decimal_float (ip @ CHR ''.'' # fp @ rest)
         = Some (real (digits_val 10 (ip @ fp)) / 10 ^ length fp)"
proof -
  have nd: "rest = [] \<or> \<not> isdigit (hd rest)" using assms(4) by auto
  have t1: "takeWhile isdigit (ip @ CHR ''.'' # fp @ rest) = ip"
    using takeWhile_digits_rest [OF assms(1), of "CHR ''.'' # fp @ rest"] by simp
  have d1: "dropWhile isdigit (ip @ CHR ''.'' # fp @ rest) = CHR ''.'' # fp @ rest"
    using dropWhile_digits_rest [OF assms(1), of "CHR ''.'' # fp @ rest"] by simp
  show ?thesis
    unfolding decimal_float_def float_body_def Let_def
    using assms(3)
    by (simp add: t1 d1 takeWhile_digits_rest [OF assms(2) nd] dropWhile_digits_rest [OF assms(2) nd]
        exponent_of_rest [OF assms(4)] scale_def)
qed

lemma no_special_word:
  assumes "isdigit d"
  shows "map tolower (take 3 (d # u)) \<noteq> ''inf'' \<and> map tolower (take 3 (d # u)) \<noteq> ''nan''"
  using isdigit_plain [OF assms] by (simp add: take_Cons')

lemma hex_float_none:
  "tl s = [] \<or> (hd (tl s) \<noteq> CHR ''x'' \<and> hd (tl s) \<noteq> CHR ''X'') \<Longrightarrow> hex_float s = None"
  by (cases s; cases "tl s") (auto simp: hex_float_def)

lemma second_char:
  assumes "list_all isdigit ip" and "fr = [] \<or> hd fr = CHR ''.''" and "rest = [] \<or> hd rest = CHR '',''"
  shows "tl (d # ip @ fr @ rest) = [] \<or>
         (hd (tl (d # ip @ fr @ rest)) \<noteq> CHR ''x'' \<and> hd (tl (d # ip @ fr @ rest)) \<noteq> CHR ''X'')"
proof (cases ip)
  case Nil
  then show ?thesis using assms(2,3) by (cases fr; cases rest) auto
next
  case (Cons a as)
  then have "isdigit a" using assms(1) by simp
  from isdigit_plain [OF this] show ?thesis using Cons by simp
qed

lemma decimal_float_number:
  assumes "list_all isdigit ip" and "ip \<noteq> []"
    and "fr = [] \<or> (hd fr = CHR ''.'' \<and> tl fr \<noteq> [] \<and> list_all isdigit (tl fr))"
    and "rest = [] \<or> hd rest = CHR '',''"
  shows "decimal_float (ip @ fr @ rest)
         = Some (real (digits_val 10 (ip @ tl fr)) / 10 ^ length (tl fr))"
proof (cases fr)
  case Nil
  then show ?thesis using decimal_float_integer [OF assms(1,2,4)] by simp
next
  case (Cons c fp)
  with assms(3) have "c = CHR ''.''" and "fp \<noteq> []" and "list_all isdigit fp" by simp_all
  with Cons show ?thesis using decimal_float_fraction [OF assms(1) _ _ assms(4), of fp] by simp
qed

lemma is_number_split:
  assumes "is_number f"
  shows "\<exists>sg u. f = sg @ u \<and> split_sign f = (sg = ''-'', u) \<and> (sg = [] \<or> sg = ''-'' \<or> sg = ''+'')
           \<and> takeWhile isdigit u \<noteq> []
           \<and> (dropWhile isdigit u = [] \<or>
               (hd (dropWhile isdigit u) = CHR ''.'' \<and> tl (dropWhile isdigit u) \<noteq> []
                \<and> list_all isdigit (tl (dropWhile isdigit u))))"
    (is "\<exists>sg u. ?P sg u")
proof (cases f)
  case Nil
  with assms show ?thesis by (simp add: is_number_def split_sign_def)
next
  case (Cons c r)
  consider "c = CHR ''-''" | "c = CHR ''+''" | "c \<noteq> CHR ''-''" "c \<noteq> CHR ''+''" by blast
  then show ?thesis
  proof cases
    case 1
    with Cons assms have "?P ''-'' r"
      by (simp add: is_number_def split_sign_def Let_def)
    then show ?thesis by (intro exI)
  next
    case 2
    with Cons assms have "?P ''+'' r"
      by (simp add: is_number_def split_sign_def Let_def)
    then show ?thesis by (intro exI)
  next
    case 3
    with Cons have sp: "split_sign f = (False, f)"
      by (simp add: split_sign_def)
    from assms have "?P [] f"
      unfolding is_number_def Let_def sp by simp
    then show ?thesis by (intro exI)
  qed
qed

lemma stod_unsigned_parts:
  assumes digs: "list_all isdigit ip" and ne: "ip \<noteq> []"
    and fr: "fr = [] \<or> (hd fr = CHR ''.'' \<and> tl fr \<noteq> [] \<and> list_all isdigit (tl fr))"
    and rest: "rest = [] \<or> hd rest = CHR '',''"
  shows "isdigit (hd ip) \<and>
         map tolower (take 3 (ip @ fr @ rest)) \<noteq> ''inf'' \<and>
         map tolower (take 3 (ip @ fr @ rest)) \<noteq> ''nan'' \<and>
         hex_float (ip @ fr @ rest) = None \<and>
         decimal_float (ip @ fr @ rest)
           = Some (real (digits_val 10 (ip @ tl fr)) / 10 ^ length (tl fr))"
proof -
  from ne obtain d ip' where ip: "ip = d # ip'" by (cases ip) auto
  with digs have d: "isdigit d" and digs': "list_all isdigit ip'" by simp_all
  have fr': "fr = [] \<or> hd fr = CHR ''.''" using fr by auto
  have "hex_float (d # ip' @ fr @ rest) = None"
    by (rule hex_float_none) (rule second_char [OF digs' fr' rest])
  then have "hex_float (ip @ fr @ rest) = None" by (simp add: ip)
  moreover note decimal_float_number [OF digs ne fr rest]
  moreover have "map tolower (take 3 (ip @ fr @ rest)) \<noteq> ''inf'' \<and>
         map tolower (take 3 (ip @ fr @ rest)) \<noteq> ''nan''"
    using no_special_word [OF d, of "ip' @ fr @ rest"] by (simp add: ip)
  moreover have "isdigit (hd ip)" using d by (simp add: ip)
  ultimately show ?thesis by simp
qed

lemma stod_unsigned:
  assumes tk: "takeWhile isdigit u \<noteq> []"
    and dr: "dropWhile isdigit u = [] \<or>
               (hd (dropWhile isdigit u) = CHR ''.'' \<and> tl (dropWhile isdigit u) \<noteq> []
                \<and> list_all isdigit (tl (dropWhile isdigit u)))"
    and rest: "rest = [] \<or> hd rest = CHR '',''"
  shows "u \<noteq> [] \<and> isdigit (hd u) \<and>
         map tolower (take 3 (u @ rest)) \<noteq> ''inf'' \<and> map tolower (take 3 (u @ rest)) \<noteq> ''nan'' \<and>
         hex_float (u @ rest) = None \<and>
         decimal_float (u @ rest)
           = Some (real (digits_val 10 (takeWhile isdigit u @ tl (dropWhile isdigit u)))
                   / 10 ^ length (tl (dropWhile isdigit u)))"
proof -
  have digs: "list_all isdigit (takeWhile isdigit u)"
    by (auto simp: list_all_iff dest: set_takeWhileD)
  have eq: "takeWhile isdigit u @ dropWhile isdigit u @ rest = u @ rest"
    by (metis append_assoc takeWhile_dropWhile_id)
  have "u \<noteq> []" using tk by auto
  moreover have "hd (takeWhile isdigit u) = hd u" using tk by (cases u) (auto split: if_splits)
  ultimately show ?thesis
    using stod_unsigned_parts [OF digs tk dr rest] unfolding eq by simp
qed

lemma stod_number:
  assumes "is_number f" and "representable f" and rest: "rest = [] \<or> hd rest = CHR '',''"
  shows "stod (f @ rest) = Inr (Fin (number_value f))"
proof -
  from is_number_split [OF assms(1)] obtain sg u where
    f: "f = sg @ u" and sp: "split_sign f = (sg = ''-'', u)"
    and sg: "sg = [] \<or> sg = ''-'' \<or> sg = ''+''"
    and tk: "takeWhile isdigit u \<noteq> []"
    and dr: "dropWhile isdigit u = [] \<or>
               (hd (dropWhile isdigit u) = CHR ''.'' \<and> tl (dropWhile isdigit u) \<noteq> []
                \<and> list_all isdigit (tl (dropWhile isdigit u)))"
    by blast
  define v where "v = real (digits_val 10 (takeWhile isdigit u @ tl (dropWhile isdigit u)))
                   / 10 ^ length (tl (dropWhile isdigit u))"
  note un = stod_unsigned [OF tk dr rest, folded v_def]
  from un obtain d u' where u: "u = d # u'" and d: "isdigit d" by (cases u) auto
  note pl = isdigit_plain [OF d]
  have nv: "number_value f = (if sg = ''-'' then - v else v)"
    by (simp add: number_value_def sp v_def Let_def)
  have v0: "0 \<le> v" by (simp add: v_def)
  have "\<not> erange v"
    using assms(2) v0 by (auto simp: representable_def nv split: if_splits)
  moreover have "split_sign (dropWhile isspace (f @ rest)) = (sg = ''-'', u @ rest)"
    using sg pl by (auto simp: f u split_sign_def isspace_def)
  ultimately show ?thesis
    using un by (simp add: stod_def nv)
qed


section \<open>Properties of the constraint parser and of the program\<close>

lemma fields_unfold:
  "fields s = takeWhile (\<lambda>c. c \<noteq> CHR '','') s #
     (case dropWhile (\<lambda>c. c \<noteq> CHR '','') s of [] \<Rightarrow> [] | c # r \<Rightarrow> fields r)"
  by (induction s) simp_all

lemma fields_not_Nil: "fields s \<noteq> []"
  by (subst fields_unfold) simp

lemma fields_one:
  assumes one: "fields s = [a]"
  shows "s = a \<and> CHR '','' \<notin> set a"
proof -
  let ?d = "dropWhile (\<lambda>c. c \<noteq> CHR '','') s"
  have eq: "takeWhile (\<lambda>c. c \<noteq> CHR '','') s #
     (case ?d of [] \<Rightarrow> [] | c # r \<Rightarrow> fields r) = [a]"
    using fields_unfold [of s] unfolding one by (rule sym)
  then have a: "a = takeWhile (\<lambda>c. c \<noteq> CHR '','') s" by simp
  have "?d = []"
  proof (cases ?d)
    case Nil
    then show ?thesis .
  next
    case (Cons c r)
    with eq have "fields r = []" by simp
    with fields_not_Nil show ?thesis by blast
  qed
  then have all: "\<forall>x \<in> set s. x \<noteq> CHR '',''" by simp
  then have "takeWhile (\<lambda>c. c \<noteq> CHR '','') s = s" by simp
  with a have "s = a" by simp
  with all show ?thesis by blast
qed

lemma fields_more:
  assumes more: "fields s = a # b # fs"
  shows "\<exists>r. s = a @ CHR '','' # r \<and> CHR '','' \<notin> set a \<and> fields r = b # fs"
proof -
  let ?d = "dropWhile (\<lambda>c. c \<noteq> CHR '','') s"
  have eq: "takeWhile (\<lambda>c. c \<noteq> CHR '','') s #
     (case ?d of [] \<Rightarrow> [] | c # r \<Rightarrow> fields r) = a # b # fs"
    using fields_unfold [of s] unfolding more by (rule sym)
  then have a: "takeWhile (\<lambda>c. c \<noteq> CHR '','') s = a" by simp
  from eq obtain c r where d: "?d = c # r" and r: "fields r = b # fs"
    by (cases ?d) simp_all
  have "\<not> (hd ?d \<noteq> CHR '','')"
    by (rule hd_dropWhile) (simp add: d)
  then have c: "c = CHR '',''" by (simp add: d)
  have "s = a @ ?d" unfolding a [symmetric] by simp
  then have s: "s = a @ CHR '','' # r" by (simp add: d c)
  have "CHR '','' \<notin> set a" unfolding a [symmetric] by (auto dest: set_takeWhileD)
  with s r show ?thesis by blast
qed

lemma takeWhile_no_comma: "c \<notin> set s \<Longrightarrow> takeWhile (\<lambda>x. x \<noteq> c) s = s"
  by (induction s) auto

lemma find_from_0_none: "c \<notin> set s \<Longrightarrow> find_from s c 0 = None"
  by (simp add: find_from_def Let_def takeWhile_no_comma)

lemma find_from_0_some: "c \<notin> set a \<Longrightarrow> find_from (a @ c # r) c 0 = Some (length a)"
  by (simp add: find_from_def Let_def takeWhile_tail takeWhile_no_comma)

lemma find_from_append:
  "find_from (p @ q) c (length p) =
     (case find_from q c 0 of None \<Rightarrow> None | Some k \<Rightarrow> Some (length p + k))"
  by (simp add: find_from_def Let_def)

lemma parse_two:
  assumes a: "CHR '','' \<notin> set a" and b: "CHR '','' \<notin> set b"
  shows "parse_constraint (a @ CHR '','' # b) =
     (case try_stod a of Inl e \<Rightarrow> Inl e
      | Inr targetCorr \<Rightarrow>
         (case try_stod b of Inl e \<Rightarrow> Inl e | Inr relUnc \<Rightarrow> Inr (Fin 208, targetCorr, relUnc)))"
proof -
  have f2: "find_from (a @ CHR '','' # b) CHR '','' (Suc (length a)) = None"
    using find_from_append [of "a @ [CHR '','']" b "CHR '',''"] find_from_0_none [OF b] by simp
  show ?thesis
    by (simp add: parse_constraint_def find_from_0_some [OF a] f2 substr_def substr_from_def
        cong: sum.case_cong)
qed

lemma parse_three:
  assumes a: "CHR '','' \<notin> set a" and b: "CHR '','' \<notin> set b"
  shows "parse_constraint (a @ CHR '','' # b @ CHR '','' # c) =
     (case try_stod a of Inl e \<Rightarrow> Inl e
      | Inr ptRef \<Rightarrow>
         (case try_stod (b @ CHR '','' # take (length a) c) of Inl e \<Rightarrow> Inl e
          | Inr targetCorr \<Rightarrow>
             (case try_stod c of Inl e \<Rightarrow> Inl e | Inr relUnc \<Rightarrow> Inr (ptRef, targetCorr, relUnc))))"
proof -
  have f2: "find_from (a @ CHR '','' # b @ CHR '','' # c) CHR '','' (Suc (length a))
            = Some (Suc (length a + length b))"
    using find_from_append [of "a @ [CHR '','']" "b @ CHR '','' # c" "CHR '',''"]
      find_from_0_some [OF b, of c] by simp
  show ?thesis
    by (simp add: parse_constraint_def find_from_0_some [OF a] f2 substr_def substr_from_def
        cong: sum.case_cong)
qed

lemma try_stod_number:
  "is_number f \<Longrightarrow> representable f \<Longrightarrow> rest = [] \<or> hd rest = CHR '',''
    \<Longrightarrow> try_stod (f @ rest) = Inr (Fin (number_value f))"
  by (simp add: try_stod_def stod_number)

lemma length_two: "length xs = 2 \<Longrightarrow> \<exists>a b. xs = [a, b]"
  by (cases xs; cases "tl xs") simp_all

lemma length_three: "length xs = 3 \<Longrightarrow> \<exists>a b c. xs = [a, b, c]"
  by (cases xs; cases "tl xs"; cases "tl (tl xs)") simp_all

lemma parse_two_numbers:
  assumes fs: "fields s = [t, u]"
    and nums: "is_number t" "is_number u" and reps: "representable t" "representable u"
  shows "parse_constraint s = Inr (Fin 208, Fin (number_value t), Fin (number_value u))"
proof -
  from fields_more [OF fs] obtain r where s: "s = t @ CHR '','' # r"
    and t: "CHR '','' \<notin> set t" and r: "fields r = [u]" by blast
  from fields_one [OF r] have ru: "r = u" and u: "CHR '','' \<notin> set u" by simp_all
  have "try_stod t = Inr (Fin (number_value t))" "try_stod u = Inr (Fin (number_value u))"
    using try_stod_number [of t "[]"] try_stod_number [of u "[]"] nums reps by simp_all
  then show ?thesis
    unfolding s ru parse_two [OF t u] by simp
qed

lemma parse_three_numbers:
  assumes fs: "fields s = [p, t, u]"
    and nums: "is_number p" "is_number t" "is_number u"
    and reps: "representable p" "representable t" "representable u"
  shows "parse_constraint s = Inr (Fin (number_value p), Fin (number_value t), Fin (number_value u))"
proof -
  from fields_more [OF fs] obtain r where s: "s = p @ CHR '','' # r"
    and p: "CHR '','' \<notin> set p" and r: "fields r = [t, u]" by blast
  from fields_more [OF r] obtain r' where r2: "r = t @ CHR '','' # r'"
    and t: "CHR '','' \<notin> set t" and r': "fields r' = [u]" by blast
  from fields_one [OF r'] have ru: "r' = u" and u: "CHR '','' \<notin> set u" by simp_all
  have "try_stod p = Inr (Fin (number_value p))"
    "try_stod (t @ CHR '','' # take (length p) u) = Inr (Fin (number_value t))"
    "try_stod u = Inr (Fin (number_value u))"
    using try_stod_number [of p "[]"] try_stod_number [of t "CHR '','' # take (length p) u"]
      try_stod_number [of u "[]"] nums reps by simp_all
  then show ?thesis
    unfolding s r2 ru parse_three [OF p t] by simp
qed

theorem wellformed_parse:
  assumes wf: "wellformed_constraint s" and rp: "list_all representable (fields s)"
  shows "parse_constraint s = Inr (described_constraint s)"
proof -
  from wf consider "length (fields s) = 2" | "length (fields s) = 3"
    by (auto simp: wellformed_constraint_def)
  then show ?thesis
  proof cases
    case 1
    then obtain t u where fs: "fields s = [t, u]"
      using length_two by blast
    with wf rp show ?thesis
      using parse_two_numbers [OF fs]
      by (simp add: wellformed_constraint_def described_constraint_def)
  next
    case 2
    then obtain p t u where fs: "fields s = [p, t, u]"
      using length_three by blast
    with wf rp show ?thesis
      using parse_three_numbers [OF fs]
      by (simp add: wellformed_constraint_def described_constraint_def)
  qed
qed

lemmas stod_eval = stod_def split_sign_def decimal_float_def hex_float_def float_body_def
  isspace_def isdigit_def isxdigit_def tolower_def digit_val_def digits_val_def exponent_of_def
  scale_def erange_def

lemmas parse_eval = parse_constraint_def find_from_def substr_def substr_from_def try_stod_def

lemma parse_no_comma: "CHR '','' \<notin> set s \<Longrightarrow> parse_constraint s = Inl Parse_failure"
  by (simp add: parse_constraint_def find_from_0_none)

lemma main_parse_failure:
  assumes "opt_constraint optionsMap = Some s" and "parse_constraint s = Inl Parse_failure"
  shows "(\<forall>ms. main multijet_loads optionsMap \<noteq> Fit_started ms) \<and>
         (\<not> opt_help optionsMap \<and>
          (to_lower (opt_balance optionsMap) = ''mpf'' \<or> to_lower (opt_balance optionsMap) = ''ptbal'') \<and>
          (\<forall>file. opt_multijet optionsMap = Some file \<longrightarrow> multijet_loads file)
          \<longrightarrow> main multijet_loads optionsMap = EXIT_FAILURE (Failed_to_parse s))"
  using assms by (auto simp: main_def Let_def split: option.splits)

text \<open>
  C2: \<^verbatim>\<open>"208,1.02,0.01"\<close> gives the reference scale 208, the target correction 1.02 and
  the relative uncertainty 0.01; \<^verbatim>\<open>"1.02,0.01"\<close> gives the default reference scale 208
  with the same target and uncertainty; and a string without a comma is not parsed: the
  program never reaches the fit with it, and a run that comes to the constraint ends with
  the message that the constraint failed to parse and \<^verbatim>\<open>EXIT_FAILURE\<close>.
\<close>

theorem constraint_parse_examples:
  "parse_constraint ''208,1.02,0.01'' = Inr (Fin 208, Fin 1.02, Fin 0.01) \<and>
   parse_constraint ''1.02,0.01'' = Inr (Fin 208, Fin 1.02, Fin 0.01) \<and>
   (CHR '','' \<notin> set s \<longrightarrow>
      parse_constraint s = Inl Parse_failure \<and>
      (opt_constraint optionsMap = Some s \<longrightarrow>
         (\<forall>ms. main multijet_loads optionsMap \<noteq> Fit_started ms) \<and>
         (\<not> opt_help optionsMap \<and>
          (to_lower (opt_balance optionsMap) = ''mpf'' \<or> to_lower (opt_balance optionsMap) = ''ptbal'') \<and>
          (\<forall>file. opt_multijet optionsMap = Some file \<longrightarrow> multijet_loads file)
          \<longrightarrow> main multijet_loads optionsMap = EXIT_FAILURE (Failed_to_parse s))))"
proof -
  have "parse_constraint ''208,1.02,0.01'' = Inr (Fin 208, Fin 1.02, Fin 0.01)"
    by (simp add: parse_eval stod_eval)
  moreover have "parse_constraint ''1.02,0.01'' = Inr (Fin 208, Fin 1.02, Fin 0.01)"
    by (simp add: parse_eval stod_eval)
  ultimately show ?thesis
    using parse_no_comma [of s] main_parse_failure [of optionsMap s multijet_loads] by blast
qed

text \<open>The theorem at a specification with blanks in place of the commas.\<close>

theorem constraint_parse_examples_witness:
  "CHR '','' \<notin> set ''208 1.02 0.01'' \<and>
   parse_constraint ''208 1.02 0.01'' = Inl Parse_failure \<and>
   main (\<lambda>file. True)
     \<lparr>opt_help = False, opt_balance = ''MPF'', opt_multijet = Some ''multijet.root'',
      opt_constraint = Some ''208 1.02 0.01'', opt_output = ''fit.out''\<rparr>
     = EXIT_FAILURE (Failed_to_parse ''208 1.02 0.01'')"
  using constraint_parse_examples
    [of "''208 1.02 0.01''"
        "\<lparr>opt_help = False, opt_balance = ''MPF'', opt_multijet = Some ''multijet.root'',
          opt_constraint = Some ''208 1.02 0.01'', opt_output = ''fit.out''\<rparr>"
        "\<lambda>file. True"]
  by (simp add: to_lower_def tolower_def)

text \<open>
  C3, as the claim states it, fails: \<^verbatim>\<open>"1.02"\<close> is a single well-formed number, and
  the program refuses it, since it asks for a comma first.
\<close>

theorem single_number_rejected:
  "is_number ''1.02'' \<and> representable ''1.02'' \<and> fields ''1.02'' = [''1.02''] \<and>
   parse_constraint ''1.02'' = Inl Parse_failure"
  by (simp add: is_number_def representable_def number_value_def parse_eval stod_eval)

text \<open>
  C3, amended: the construction of the constraint fails with a parse error for every
  specification without a comma, a single well-formed number included; it succeeds for
  every specification made of two or three comma-separated decimal numbers that a
  \<^verbatim>\<open>double\<close> can hold, with the values that the specification describes (the reference
  scale 208 when two numbers are given).
\<close>

theorem constraint_parse_two_or_three:
  "(CHR '','' \<notin> set s \<longrightarrow> parse_constraint s = Inl Parse_failure) \<and>
   (wellformed_constraint s \<and> list_all representable (fields s)
      \<longrightarrow> parse_constraint s = Inr (described_constraint s))"
  using parse_no_comma [of s] wellformed_parse [of s] by blast

text \<open>The theorem at a single number, at three numbers and at two signed numbers.\<close>

theorem constraint_parse_two_or_three_witness:
  "CHR '','' \<notin> set ''0.98'' \<and> parse_constraint ''0.98'' = Inl Parse_failure \<and>
   wellformed_constraint ''200,0.98,0.02'' \<and> list_all representable (fields ''200,0.98,0.02'') \<and>
   parse_constraint ''200,0.98,0.02'' = Inr (Fin 200, Fin 0.98, Fin 0.02) \<and>
   wellformed_constraint ''-1.5,+0.25'' \<and> list_all representable (fields ''-1.5,+0.25'') \<and>
   parse_constraint ''-1.5,+0.25'' = Inr (Fin 208, Fin (- 1.5), Fin 0.25)"
proof -
  have wf: "wellformed_constraint ''200,0.98,0.02''" "list_all representable (fields ''200,0.98,0.02'')"
    "wellformed_constraint ''-1.5,+0.25''" "list_all representable (fields ''-1.5,+0.25'')"
    by (simp_all add: wellformed_constraint_def is_number_def representable_def number_value_def
        stod_eval)
  have d: "described_constraint ''200,0.98,0.02'' = (Fin 200, Fin 0.98, Fin 0.02)"
    "described_constraint ''-1.5,+0.25'' = (Fin 208, Fin (- 1.5), Fin 0.25)"
    by (simp_all add: described_constraint_def number_value_def stod_eval)
  show ?thesis
    using constraint_parse_two_or_three [of "''0.98''"]
      constraint_parse_two_or_three [of "''200,0.98,0.02''"]
      constraint_parse_two_or_three [of "''-1.5,+0.25''"] wf d
    by simp
qed

text \<open>
  C9: the program does not do what the claim says for a malformed constraint. It sets out
  to reject one: its comment asks for two or three numbers separated by commas, and a
  specification such as \<^verbatim>\<open>"x,0.01"\<close>, whose first field holds no number, ends the run
  with the message that the constraint failed to parse and \<^verbatim>\<open>EXIT_FAILURE\<close>. But it
  never checks that \<^verbatim>\<open>std::stod\<close> has read a field whole. \<^verbatim>\<open>"1.02,0.01abc"\<close> is not
  made of two or three numbers, yet \<^verbatim>\<open>std::stod\<close> reads the number at the start of
  \<^verbatim>\<open>0.01abc\<close> and ignores the rest: the program reports nothing and starts the fit with
  the constraint \<open>(208, 1.02, 0.01)\<close>.
\<close>

theorem trailing_text_accepted:
  "\<not> wellformed_constraint ''1.02,0.01abc'' \<and>
   main (\<lambda>file. False)
     \<lparr>opt_help = False, opt_balance = ''PtBal'', opt_multijet = None,
      opt_constraint = Some ''1.02,0.01abc'', opt_output = ''fit.out''\<rparr>
     = Fit_started [JetCorrConstraint (Fin 208) (Fin 1.02) (Fin 0.01)] \<and>
   main (\<lambda>file. False)
     \<lparr>opt_help = False, opt_balance = ''PtBal'', opt_multijet = None,
      opt_constraint = Some ''x,0.01'', opt_output = ''fit.out''\<rparr>
     = EXIT_FAILURE (Failed_to_parse ''x,0.01'')"
  by (simp add: wellformed_constraint_def is_number_def main_def to_lower_def parse_eval stod_eval)

text \<open>
  A number too large for a \<^verbatim>\<open>double\<close> is not reported either: \<^verbatim>\<open>std::stod\<close> throws
  \<^verbatim>\<open>std::out_of_range\<close>, for which \<^verbatim>\<open>main\<close> has no \<^verbatim>\<open>catch\<close> clause, and the
  exception leaves \<^verbatim>\<open>main\<close>.
\<close>

lemma out_of_range_constraint_uncaught:
  "parse_constraint ''1e400,0.01'' = Inl Uncaught_out_of_range \<and>
   main (\<lambda>file. False)
     \<lparr>opt_help = False, opt_balance = ''PtBal'', opt_multijet = None,
      opt_constraint = Some ''1e400,0.01'', opt_output = ''fit.out''\<rparr>
     = Uncaught_exception"
  by (simp add: main_def to_lower_def parse_eval stod_eval)


section \<open>Properties of the minimizer set-up\<close>

lemma set_variable_and_limits:
  "SetVariableLimits (SetVariable minimizer i nm val stp) i lower upper
     = minimizer(i \<mapsto> \<lparr>name = nm, initial = val, step = stp, limits = Some (lower, upper)\<rparr>)"
  by (simp add: SetVariableLimits_def SetVariable_def)

lemma poi_loop_lookup:
  "poi_loop is minimizer i =
     (if i \<in> set is
      then Some \<lparr>name = ''p'' @ to_string i, initial = Fin 0, step = Fin (1 / 100),
                 limits = Some (Fin (- 1), Fin 1)\<rparr>
      else minimizer i)"
proof (induction "is" arbitrary: minimizer)
  case Nil
  then show ?case by simp
next
  case (Cons j rest)
  show ?case
    unfolding poi_loop.simps set_variable_and_limits Cons.IH by auto
qed

lemma nuisance_loop_lookup:
  assumes "\<forall>j \<in> set is. j - nPOI < length (names nuisanceDefs)"
  shows "\<exists>result. nuisance_loop nuisanceDefs nPOI is minimizer = Some result \<and>
     (\<forall>i. result i =
       (if i \<in> set is
        then Some \<lparr>name = names nuisanceDefs ! (i - nPOI), initial = Fin 0, step = Fin 1,
                   limits = Some (Fin (- 5), Fin 5)\<rparr>
        else minimizer i))"
  using assms
proof (induction "is" arbitrary: minimizer)
  case Nil
  then show ?case by simp
next
  case (Cons j rest)
  let ?m = "minimizer(j \<mapsto> \<lparr>name = names nuisanceDefs ! (j - nPOI), initial = Fin 0, step = Fin 1,
                   limits = Some (Fin (- 5), Fin 5)\<rparr>)"
  from Cons.prems have j: "GetName nuisanceDefs (j - nPOI) = Some (names nuisanceDefs ! (j - nPOI))"
    and rest: "\<forall>j \<in> set rest. j - nPOI < length (names nuisanceDefs)"
    by (simp_all add: GetName_def)
  from Cons.IH [OF rest, of ?m] obtain result where
    r: "nuisance_loop nuisanceDefs nPOI rest ?m = Some result"
    and l: "\<forall>i. result i =
       (if i \<in> set rest
        then Some \<lparr>name = names nuisanceDefs ! (i - nPOI), initial = Fin 0, step = Fin 1,
                   limits = Some (Fin (- 5), Fin 5)\<rparr>
        else ?m i)" by blast
  have "nuisance_loop nuisanceDefs nPOI (j # rest) minimizer = Some result"
    by (simp add: j set_variable_and_limits r)
  moreover have "\<forall>i. result i =
       (if i \<in> set (j # rest)
        then Some \<lparr>name = names nuisanceDefs ! (i - nPOI), initial = Fin 0, step = Fin 1,
                   limits = Some (Fin (- 5), Fin 5)\<rparr>
        else minimizer i)"
    using l by auto
  ultimately show ?case by blast
qed

lemma nPOI_value:
  assumes "length (names nuisanceDefs) \<le> unat nPars"
  shows "unat (nPOI_of nuisanceDefs nPars) = unat nPars - length (names nuisanceDefs)"
proof -
  have "unat nPars < 2 ^ 32" using unsigned_less [of nPars] by simp
  with assms have n: "unat (of_nat (length (names nuisanceDefs)) :: 32 word) = length (names nuisanceDefs)"
    by (simp add: unat_of_nat)
  then have "(of_nat (length (names nuisanceDefs)) :: 32 word) \<le> nPars"
    using assms by (simp add: word_le_nat_alt)
  then show ?thesis
    by (simp add: nPOI_of_def GetNumParams_def unat_sub n)
qed

text \<open>
  C6: when the registry is not larger than the number of parameters, the variables of the
  minimizer are laid out as follows. \<open>nPOI\<close> is the number of parameters minus the size of
  the registry. The indices \<open>0\<close> to \<open>nPOI - 1\<close> hold the parameters of interest, each with
  the limits \<open>[-1, 1]\<close>; the indices \<open>nPOI\<close> to \<open>nPars - 1\<close> hold the nuisance
  parameters in the order of the registry, each with the limits \<open>[-5, 5]\<close>; there is no
  variable beyond.
\<close>

theorem initial_point_layout:
  assumes "length (names nuisanceDefs) \<le> unat nPars"
  shows "\<exists>minimizer. initial_point nuisanceDefs nPars = Some minimizer \<and>
     unat (nPOI_of nuisanceDefs nPars) = unat nPars - length (names nuisanceDefs) \<and>
     (\<forall>i. i < unat (nPOI_of nuisanceDefs nPars) \<longrightarrow>
        minimizer i = Some \<lparr>name = ''p'' @ to_string i, initial = Fin 0, step = Fin (1 / 100),
                             limits = Some (Fin (- 1), Fin 1)\<rparr>) \<and>
     (\<forall>i. unat (nPOI_of nuisanceDefs nPars) \<le> i \<and> i < unat nPars \<longrightarrow>
        minimizer i = Some \<lparr>name = names nuisanceDefs ! (i - unat (nPOI_of nuisanceDefs nPars)),
                             initial = Fin 0, step = Fin 1,
                             limits = Some (Fin (- 5), Fin 5)\<rparr>) \<and>
     (\<forall>i. unat nPars \<le> i \<longrightarrow> minimizer i = None)"
proof -
  define nPOI where "nPOI = unat (nPOI_of nuisanceDefs nPars)"
  have nPOI: "nPOI = unat nPars - length (names nuisanceDefs)"
    unfolding nPOI_def by (rule nPOI_value [OF assms])
  have "\<forall>j \<in> set [nPOI ..< unat nPars]. j - nPOI < length (names nuisanceDefs)"
    using assms nPOI by auto
  from nuisance_loop_lookup [OF this, of "poi_loop [0 ..< nPOI] Map.empty"]
  obtain result where
    r: "nuisance_loop nuisanceDefs nPOI [nPOI ..< unat nPars] (poi_loop [0 ..< nPOI] Map.empty)
        = Some result"
    and l: "\<forall>i. result i =
       (if i \<in> set [nPOI ..< unat nPars]
        then Some \<lparr>name = names nuisanceDefs ! (i - nPOI), initial = Fin 0, step = Fin 1,
                   limits = Some (Fin (- 5), Fin 5)\<rparr>
        else poi_loop [0 ..< nPOI] Map.empty i)" by blast
  have le: "nPOI \<le> unat nPars" using nPOI by simp
  have "initial_point nuisanceDefs nPars = Some result"
    by (simp add: initial_point_def Let_def nPOI_def [symmetric] r)
  moreover have "\<forall>i. i < nPOI \<longrightarrow>
        result i = Some \<lparr>name = ''p'' @ to_string i, initial = Fin 0, step = Fin (1 / 100),
                             limits = Some (Fin (- 1), Fin 1)\<rparr>"
    using l by (simp add: poi_loop_lookup)
  moreover have "\<forall>i. nPOI \<le> i \<and> i < unat nPars \<longrightarrow>
        result i = Some \<lparr>name = names nuisanceDefs ! (i - nPOI), initial = Fin 0, step = Fin 1,
                             limits = Some (Fin (- 5), Fin 5)\<rparr>"
    using l by simp
  moreover have "\<forall>i. unat nPars \<le> i \<longrightarrow> result i = None"
    using l le by (simp add: poi_loop_lookup)
  ultimately show ?thesis
    using nPOI unfolding nPOI_def by blast
qed


text \<open>The theorem at three parameters, of which one is the nuisance \<^verbatim>\<open>photonScale\<close>.\<close>

theorem initial_point_layout_witness:
  "length (names \<lparr>names = [''photonScale'']\<rparr>) \<le> unat (3 :: 32 word) \<and>
   unat (nPOI_of \<lparr>names = [''photonScale'']\<rparr> 3) = 2 \<and>
   (\<exists>minimizer. initial_point \<lparr>names = [''photonScale'']\<rparr> 3 = Some minimizer \<and>
      minimizer 0 = Some \<lparr>name = ''p0'', initial = Fin 0, step = Fin (1 / 100),
                           limits = Some (Fin (- 1), Fin 1)\<rparr> \<and>
      minimizer 1 = Some \<lparr>name = ''p1'', initial = Fin 0, step = Fin (1 / 100),
                           limits = Some (Fin (- 1), Fin 1)\<rparr> \<and>
      minimizer 2 = Some \<lparr>name = ''photonScale'', initial = Fin 0, step = Fin 1,
                           limits = Some (Fin (- 5), Fin 5)\<rparr> \<and>
      minimizer 3 = None)"
proof -
  have h: "length (names \<lparr>names = [''photonScale'']\<rparr>) \<le> unat (3 :: 32 word)" by simp
  from initial_point_layout [OF h] obtain minimizer where
    m: "initial_point \<lparr>names = [''photonScale'']\<rparr> 3 = Some minimizer"
    and n: "unat (nPOI_of \<lparr>names = [''photonScale'']\<rparr> 3) = unat (3 :: 32 word) - length (names \<lparr>names = [''photonScale'']\<rparr>)"
    and p: "\<forall>i. i < unat (nPOI_of \<lparr>names = [''photonScale'']\<rparr> 3) \<longrightarrow>
        minimizer i = Some \<lparr>name = ''p'' @ to_string i, initial = Fin 0, step = Fin (1 / 100),
                             limits = Some (Fin (- 1), Fin 1)\<rparr>"
    and q: "\<forall>i. unat (nPOI_of \<lparr>names = [''photonScale'']\<rparr> 3) \<le> i \<and> i < unat (3 :: 32 word) \<longrightarrow>
        minimizer i = Some \<lparr>name = names \<lparr>names = [''photonScale'']\<rparr> ! (i - unat (nPOI_of \<lparr>names = [''photonScale'']\<rparr> 3)),
                             initial = Fin 0, step = Fin 1,
                             limits = Some (Fin (- 5), Fin 5)\<rparr>"
    and e: "\<forall>i. unat (3 :: 32 word) \<le> i \<longrightarrow> minimizer i = None"
    by blast
  have n2: "unat (nPOI_of \<lparr>names = [''photonScale'']\<rparr> 3) = 2" using n by simp
  have "minimizer 0 = Some \<lparr>name = ''p0'', initial = Fin 0, step = Fin (1 / 100),
                           limits = Some (Fin (- 1), Fin 1)\<rparr>"
    using p [rule_format, of 0] n2 by simp
  moreover have "minimizer 1 = Some \<lparr>name = ''p1'', initial = Fin 0, step = Fin (1 / 100),
                           limits = Some (Fin (- 1), Fin 1)\<rparr>"
    using p [rule_format, of 1] n2 by simp
  moreover have "minimizer 2 = Some \<lparr>name = ''photonScale'', initial = Fin 0, step = Fin 1,
                           limits = Some (Fin (- 5), Fin 5)\<rparr>"
    using q [rule_format, of 2] n2 by simp
  moreover have "minimizer 3 = None" using e [rule_format, of 3] by simp
  ultimately show ?thesis using h n2 m by blast
qed

end
